theory Spec2Isabelle
  imports Main "HOL-Library.Word"
begin

section \<open>Data model of the patch engine\<close>

text \<open>
  The embedding follows \<^verbatim>\<open>Source/Core/Core/PatchEngine.cpp\<close>. The fixed-width
  integers \<^verbatim>\<open>u8\<close>, \<^verbatim>\<open>u16\<close> and \<^verbatim>\<open>u32\<close> are words; \<^verbatim>\<open>std::string\<close> is a
  character list.
\<close>

type_synonym u8 = "8 word"
type_synonym u16 = "16 word"
type_synonym u32 = "32 word"

text \<open>
  \<^verbatim>\<open>PatchType\<close> has the three enumerators \<^verbatim>\<open>PATCH_8BIT\<close>, \<^verbatim>\<open>PATCH_16BIT\<close> and
  \<^verbatim>\<open>PATCH_32BIT\<close> (values 0, 1, 2). The loader also produces \<^verbatim>\<open>(PatchType)3\<close>, the
  offset \<^verbatim>\<open>std::find\<close> returns when no token matches; it is the fourth constructor.
\<close>

datatype PatchType = PATCH_8BIT | PATCH_16BIT | PATCH_32BIT | PatchType_3

record PatchEntry =
  type :: PatchType
  address :: u32
  "value" :: u32

record Patch =
  name :: string
  entries :: "PatchEntry list"
  active :: bool
  user_defined :: bool

text \<open>
  A default-constructed \<^verbatim>\<open>Patch\<close> has an empty name and no entries. The header that
  declares the struct is not part of the sources at hand, so the initial value of the two
  flags is not known; they are assigned (lines 89-90) before a patch can be committed,
  and lemma \<open>LoadPatchLines_flags\<close> below shows that the initial flags never reach the
  collection.
\<close>

definition Patch_default :: Patch where
  "Patch_default = \<lparr>name = [], entries = [], active = False, user_defined = False\<rparr>"

subsection \<open>Collaborators consumed through their interface\<close>

text \<open>
  \<^verbatim>\<open>IniFile\<close> is used through three calls: \<^verbatim>\<open>GetLines(section, &lines)\<close>,
  \<^verbatim>\<open>GetKeys(section, &keys)\<close> and \<^verbatim>\<open>GetOrCreateSection(section)->Get(key, &value,
  default)\<close>. A configuration source is the record of what these calls return;
  \<open>Get\<close> is \<open>None\<close> for a key without a value, where the code receives the default.
\<close>

record IniFile =
  GetLines :: "string \<Rightarrow> string list"
  GetKeys :: "string \<Rightarrow> string list"
  Get :: "string \<Rightarrow> string \<Rightarrow> string option"

text \<open>
  \<^verbatim>\<open>SConfig::GetInstance()\<close>: the music-off flag and the three views of the game
  configuration (merged, shipped default, user override).
\<close>

record SConfig =
  bBrawlMusicOff :: bool
  LoadGameIni :: IniFile
  LoadDefaultGameIni :: IniFile
  LoadLocalGameIni :: IniFile

text \<open>
  \<^verbatim>\<open>TryParse(str, &out)\<close> for \<^verbatim>\<open>u32\<close> and \<^verbatim>\<open>SplitString(str, delim)\<close> live in
  \<^verbatim>\<open>Common/StringUtil\<close>, which is not part of the sources at hand. They are parameters
  of the loader: a parse returns the number or fails, a split returns the fields.
\<close>

record StringUtil =
  TryParse :: "string \<Rightarrow> u32 option"
  SplitString :: "string \<Rightarrow> char \<Rightarrow> string list"

text \<open>
  The emulated machine as \<^verbatim>\<open>IsStackSane\<close> and \<^verbatim>\<open>ApplyFramePatches\<close> read it: the two
  translation bits of \<^verbatim>\<open>MSR\<close>, general register 1 and the three read-only calls of
  \<^verbatim>\<open>PowerPC\<close>.
\<close>

record Machine =
  MSR_DR :: bool
  MSR_IR :: bool
  GPR1 :: u32
  HostIsRAMAddress :: "u32 \<Rightarrow> bool"
  HostIsInstructionRAMAddress :: "u32 \<Rightarrow> bool"
  HostRead_U32 :: "u32 \<Rightarrow> u32"

text \<open>
  What a call does to the emulated machine is the sequence of calls it issues: the three
  typed writes of \<^verbatim>\<open>PowerPC\<close> (value first, address second, as in the source) and the
  two entry points of the external code interpreters.
\<close>

datatype Event =
    HostWrite_U8 u8 u32
  | HostWrite_U16 u16 u32
  | HostWrite_U32 u32 u32
  | Gecko_RunCodeHandler
  | ActionReplay_RunAllActive

text \<open>
  Two ways a call can fail to produce a value: control reaches the end of a non-void
  function without a \<^verbatim>\<open>return\<close>, and a \<^verbatim>\<open>DEBUG_ASSERT\<close> that does not hold.
\<close>

datatype error = MissingReturn | AssertionFailed

text \<open>The two statics of the namespace.\<close>

record Engine =
  onFrame :: "Patch list"
  speedHacks :: "u32 \<rightharpoonup> int"

section \<open>The built-in override\<close>

text \<open>
  \<^verbatim>\<open>IsEnabledMusicCode\<close> (lines 36-41) has one \<^verbatim>\<open>return\<close>, under the \<^verbatim>\<open>if\<close>; on the
  other path the body ends after a comment.
\<close>

definition IsEnabledMusicCode :: "SConfig \<Rightarrow> Patch \<Rightarrow> bool option" where
  "IsEnabledMusicCode cfg patch =
     (if bBrawlMusicOff cfg \<and> name patch = ''[P+] Music Off'' then Some True else None)"

section \<open>Loading the patch section\<close>

text \<open>Lines 56-63: the names of the enabled patches.\<close>

fun enabledNames_of :: "string list \<Rightarrow> string set \<Rightarrow> string set" where
  "enabledNames_of [] enabledNames = enabledNames"
| "enabledNames_of (line # enabledLines) enabledNames =
     enabledNames_of enabledLines
       (case line of
          [] \<Rightarrow> enabledNames
        | c # rest \<Rightarrow> if c = CHR ''$'' then insert rest enabledNames else enabledNames)"

definition PatchTypeStrings :: "string list" where
  "PatchTypeStrings = [''byte'', ''word'', ''dword'']"

text \<open>\<^verbatim>\<open>std::find(first, last, x) - first\<close>: the offset of the first element equal to
  \<open>x\<close>, the length of the range when there is none.\<close>

fun std_find :: "string list \<Rightarrow> string \<Rightarrow> nat" where
  "std_find [] x = 0"
| "std_find (y # ys) x = (if y = x then 0 else Suc (std_find ys x))"

text \<open>The cast \<^verbatim>\<open>PatchType(n)\<close> for the offsets 0 to 3.\<close>

definition PatchType_of :: "nat \<Rightarrow> PatchType" where
  "PatchType_of n =
     (if n = 0 then PATCH_8BIT else if n = 1 then PATCH_16BIT
      else if n = 2 then PATCH_32BIT else PatchType_3)"

text \<open>Lines 94-99: the first \<^verbatim>\<open>'='\<close> of the line, if any, becomes \<^verbatim>\<open>':'\<close>.\<close>

fun replace_first_eq :: "string \<Rightarrow> string" where
  "replace_first_eq [] = []"
| "replace_first_eq (c # cs) =
     (if c = CHR ''='' then CHR '':'' # cs else c # replace_first_eq cs)"

text \<open>Lines 94-117, the \<^verbatim>\<open>else\<close> branch of the loop body: the entry the line yields, if
  \<^verbatim>\<open>success\<close> is still true at line 113.\<close>

definition ParseEntryLine :: "StringUtil \<Rightarrow> string \<Rightarrow> PatchEntry option" where
  "ParseEntryLine su line =
     (let items = SplitString su (replace_first_eq line) CHR '':'' in
      if 3 \<le> length items then
        (let pE_address = TryParse su (items ! 0);
             pE_value = TryParse su (items ! 2);
             pE_type = PatchType_of (std_find PatchTypeStrings (items ! 1))
         in case pE_address of
              None \<Rightarrow> None
            | Some a \<Rightarrow>
               (case pE_value of
                  None \<Rightarrow> None
                | Some v \<Rightarrow>
                   if pE_type \<noteq> PatchType_3
                   then Some \<lparr>type = pE_type, address = a, value = v\<rparr>
                   else None))
      else None)"

text \<open>Lines 75-118: one iteration of the loop over the lines, on the pair of the
  collection and \<^verbatim>\<open>currentPatch\<close>.\<close>

definition LoadPatchLine ::
  "StringUtil \<Rightarrow> string set \<Rightarrow> bool \<Rightarrow> string \<Rightarrow> Patch list \<times> Patch \<Rightarrow> Patch list \<times> Patch" where
  "LoadPatchLine su enabledNames is_local line st =
     (case st of (patches, currentPatch) \<Rightarrow>
       (case line of
          [] \<Rightarrow> (patches, currentPatch)
        | c # rest \<Rightarrow>
           if c = CHR ''$'' then
             (if name currentPatch \<noteq> [] then patches @ [currentPatch] else patches,
              currentPatch\<lparr>entries := [], name := rest,
                active := (rest \<in> enabledNames), user_defined := is_local\<rparr>)
           else
             (case ParseEntryLine su line of
                Some pE \<Rightarrow> (patches, currentPatch\<lparr>entries := entries currentPatch @ [pE]\<rparr>)
              | None \<Rightarrow> (patches, currentPatch))))"

fun LoadPatchLines ::
  "StringUtil \<Rightarrow> string set \<Rightarrow> bool \<Rightarrow> string list \<Rightarrow> Patch list \<times> Patch \<Rightarrow> Patch list \<times> Patch" where
  "LoadPatchLines su enabledNames is_local [] st = st"
| "LoadPatchLines su enabledNames is_local (line # lines) st =
     LoadPatchLines su enabledNames is_local lines (LoadPatchLine su enabledNames is_local line st)"

text \<open>Lines 69-124: one iteration of the loop over the two sources; \<open>is_local\<close> is
  \<^verbatim>\<open>ini == &localIni\<close>.\<close>

definition LoadPatchIni ::
  "StringUtil \<Rightarrow> string set \<Rightarrow> bool \<Rightarrow> string list \<Rightarrow> Patch list \<Rightarrow> Patch list" where
  "LoadPatchIni su enabledNames is_local lines patches =
     (case LoadPatchLines su enabledNames is_local lines (patches, Patch_default) of
        (patches', currentPatch) \<Rightarrow>
          if name currentPatch \<noteq> [] \<and> entries currentPatch \<noteq> []
          then patches' @ [currentPatch] else patches')"

definition LoadPatchSection ::
  "StringUtil \<Rightarrow> string \<Rightarrow> Patch list \<Rightarrow> IniFile \<Rightarrow> IniFile \<Rightarrow> Patch list" where
  "LoadPatchSection su section patches globalIni localIni =
     (let enabledNames = enabledNames_of (GetLines localIni (section @ ''_Enabled'')) {};
          patches1 = LoadPatchIni su enabledNames False (GetLines globalIni section) patches
      in LoadPatchIni su enabledNames True (GetLines localIni section) patches1)"

section \<open>Loading the speedhack table\<close>

text \<open>\<^verbatim>\<open>GetOrCreateSection(section)->Get(key, &value, defaultValue)\<close>: the value of the
  key, the default when the key has none.\<close>

definition Section_Get :: "IniFile \<Rightarrow> string \<Rightarrow> string \<Rightarrow> string \<Rightarrow> string" where
  "Section_Get ini section key defaultValue =
     (case Get ini section key of Some v \<Rightarrow> v | None \<Rightarrow> defaultValue)"

text \<open>Lines 134-147: one iteration of the loop over the keys. \<^verbatim>\<open>(int)cycles\<close> reads the
  32 bits of \<^verbatim>\<open>cycles\<close> as a signed number.\<close>

definition LoadSpeedhackKey ::
  "StringUtil \<Rightarrow> string \<Rightarrow> IniFile \<Rightarrow> string \<Rightarrow> (u32 \<rightharpoonup> int) \<Rightarrow> (u32 \<rightharpoonup> int)" where
  "LoadSpeedhackKey su section ini key speedHacks_tbl =
     (let val = Section_Get ini section key ''BOGUS'' in
      if val \<noteq> ''BOGUS'' then
        (case TryParse su key of
           None \<Rightarrow> speedHacks_tbl
         | Some addr \<Rightarrow>
            (case TryParse su val of
               None \<Rightarrow> speedHacks_tbl
             | Some cycles \<Rightarrow> speedHacks_tbl(addr \<mapsto> sint cycles)))
      else speedHacks_tbl)"

fun LoadSpeedhackKeys ::
  "StringUtil \<Rightarrow> string \<Rightarrow> IniFile \<Rightarrow> string list \<Rightarrow> (u32 \<rightharpoonup> int) \<Rightarrow> (u32 \<rightharpoonup> int)" where
  "LoadSpeedhackKeys su section ini [] speedHacks_tbl = speedHacks_tbl"
| "LoadSpeedhackKeys su section ini (key # keys) speedHacks_tbl =
     LoadSpeedhackKeys su section ini keys (LoadSpeedhackKey su section ini key speedHacks_tbl)"

definition LoadSpeedhacks ::
  "StringUtil \<Rightarrow> string \<Rightarrow> IniFile \<Rightarrow> (u32 \<rightharpoonup> int) \<Rightarrow> (u32 \<rightharpoonup> int)" where
  "LoadSpeedhacks su section ini speedHacks_tbl =
     LoadSpeedhackKeys su section ini (GetKeys ini section) speedHacks_tbl"

definition GetSpeedhackCycles :: "Engine \<Rightarrow> u32 \<Rightarrow> int" where
  "GetSpeedhackCycles eng addr =
     (case speedHacks eng addr of None \<Rightarrow> 0 | Some cycles \<Rightarrow> cycles)"

section \<open>Applying the patches\<close>

text \<open>Lines 182-198: the body of the loop over the entries, appending to the calls
  issued so far.\<close>

definition ApplyEntry :: "PatchEntry \<Rightarrow> Event list \<Rightarrow> Event list" where
  "ApplyEntry entry issued =
     (let addr = address entry; v = value entry in
      case type entry of
        PATCH_8BIT \<Rightarrow> issued @ [HostWrite_U8 (ucast v) addr]
      | PATCH_16BIT \<Rightarrow> issued @ [HostWrite_U16 (ucast v) addr]
      | PATCH_32BIT \<Rightarrow> issued @ [HostWrite_U32 v addr]
      | PatchType_3 \<Rightarrow> issued)"

fun ApplyEntries :: "PatchEntry list \<Rightarrow> Event list \<Rightarrow> Event list" where
  "ApplyEntries [] issued = issued"
| "ApplyEntries (entry # es) issued = ApplyEntries es (ApplyEntry entry issued)"

text \<open>Lines 174-202. \<^verbatim>\<open>patch.active || IsEnabledMusicCode(patch)\<close> calls the override
  only for an inactive patch; when the call ends without a value, so does the model.\<close>

fun ApplyPatches :: "SConfig \<Rightarrow> Patch list \<Rightarrow> Event list \<Rightarrow> error + Event list" where
  "ApplyPatches cfg [] issued = Inr issued"
| "ApplyPatches cfg (patch # patches) issued =
     (if active patch then ApplyPatches cfg patches (ApplyEntries (entries patch) issued)
      else
        (case IsEnabledMusicCode cfg patch of
           None \<Rightarrow> Inl MissingReturn
         | Some b \<Rightarrow>
            if b then ApplyPatches cfg patches (ApplyEntries (entries patch) issued)
            else ApplyPatches cfg patches issued))"

section \<open>The stack heuristic and the frame hook\<close>

text \<open>Lines 207-225. The comparison is the unsigned one of \<^verbatim>\<open>u32\<close> and
  \<^verbatim>\<open>next_SP + 4\<close> wraps around, as word arithmetic does.\<close>

definition IsStackSane :: "Machine \<Rightarrow> error + bool" where
  "IsStackSane m =
     (if \<not> (MSR_DR m \<and> MSR_IR m) then Inl AssertionFailed
      else
        (let SP = GPR1 m in
         if \<not> HostIsRAMAddress m SP then Inr False
         else
           (let next_SP = HostRead_U32 m SP in
            if next_SP \<le> SP \<or> \<not> HostIsRAMAddress m next_SP
               \<or> \<not> HostIsRAMAddress m (next_SP + 4)
            then Inr False
            else
              (let addr = HostRead_U32 m (next_SP + 4) in
               Inr (HostIsInstructionRAMAddress m addr \<and> 0 \<noteq> HostRead_U32 m addr)))))"

text \<open>Lines 227-250. The debug log of the retry branch touches neither the machine nor
  the engine and is left out.\<close>

definition ApplyFramePatches ::
  "SConfig \<Rightarrow> Machine \<Rightarrow> Engine \<Rightarrow> Event list \<Rightarrow> error + bool \<times> Event list" where
  "ApplyFramePatches cfg m eng issued =
     (if \<not> MSR_DR m \<or> \<not> MSR_IR m then Inr (False, issued)
      else
        (case IsStackSane m of
           Inl e \<Rightarrow> Inl e
         | Inr sane \<Rightarrow>
            if \<not> sane then Inr (False, issued)
            else
              (case ApplyPatches cfg (onFrame eng) issued of
                 Inl e \<Rightarrow> Inl e
               | Inr issued' \<Rightarrow>
                  Inr (True, issued' @ [Gecko_RunCodeHandler, ActionReplay_RunAllActive]))))"

section \<open>Lifecycle\<close>

text \<open>Lines 160-172, 252-264. The calls that load and clear the codes of the two
  external interpreters act on state outside this namespace.\<close>

definition Idle :: Engine where
  "Idle = \<lparr>onFrame = [], speedHacks = Map.empty\<rparr>"

definition LoadPatches :: "StringUtil \<Rightarrow> SConfig \<Rightarrow> Engine \<Rightarrow> Engine" where
  "LoadPatches su cfg eng =
     (let merged = LoadGameIni cfg;
          globalIni = LoadDefaultGameIni cfg;
          localIni = LoadLocalGameIni cfg
      in \<lparr>onFrame = LoadPatchSection su ''OnFrame'' (onFrame eng) globalIni localIni,
          speedHacks = LoadSpeedhacks su ''Speedhacks'' merged (speedHacks eng)\<rparr>)"

definition Shutdown :: "Engine \<Rightarrow> Engine" where
  "Shutdown eng = \<lparr>onFrame = [], speedHacks = Map.empty\<rparr>"

definition Reload :: "StringUtil \<Rightarrow> SConfig \<Rightarrow> Engine \<Rightarrow> Engine" where
  "Reload su cfg eng = LoadPatches su cfg (Shutdown eng)"

section \<open>Reference formulations\<close>

text \<open>
  The properties below compare the code with these formulations, which follow the
  design notes of the engine rather than the control flow of the code.
\<close>

text \<open>The flag rule: a patch is active exactly when its name is in the enabled set.\<close>

definition flag_ok :: "string set \<Rightarrow> Patch \<Rightarrow> bool" where
  "flag_ok enabledNames p = (active p = (name p \<in> enabledNames))"

text \<open>The fixed vocabulary of type tokens, matched case-sensitively.\<close>

definition token_type :: "string \<Rightarrow> PatchType option" where
  "token_type tok =
     (if tok = ''byte'' then Some PATCH_8BIT
      else if tok = ''word'' then Some PATCH_16BIT
      else if tok = ''dword'' then Some PATCH_32BIT
      else None)"

text \<open>An entry line: the optional \<^verbatim>\<open>=\<close> normalised, at least three fields, field 0 the
  address, field 1 the type token, field 2 the value.\<close>

definition entry_of_line :: "StringUtil \<Rightarrow> string \<Rightarrow> PatchEntry option" where
  "entry_of_line su line =
     (case SplitString su (replace_first_eq line) CHR '':'' of
        f0 # f1 # f2 # others \<Rightarrow>
          (case TryParse su f0 of
             None \<Rightarrow> None
           | Some a \<Rightarrow>
              (case token_type f1 of
                 None \<Rightarrow> None
               | Some t \<Rightarrow>
                  (case TryParse su f2 of
                     None \<Rightarrow> None
                   | Some v \<Rightarrow> Some \<lparr>type = t, address = a, value = v\<rparr>)))
      | _ \<Rightarrow> None)"

text \<open>The write an entry declares: its width, its value cut to that width (the
  remainder modulo \<open>2 ^ 8\<close> or \<open>2 ^ 16\<close>), its address.\<close>

definition entry_writes :: "PatchEntry \<Rightarrow> Event list" where
  "entry_writes e =
     (case type e of
        PATCH_8BIT \<Rightarrow> [HostWrite_U8 (word_of_nat (unat (value e) mod 2 ^ 8)) (address e)]
      | PATCH_16BIT \<Rightarrow> [HostWrite_U16 (word_of_nat (unat (value e) mod 2 ^ 16)) (address e)]
      | PATCH_32BIT \<Rightarrow> [HostWrite_U32 (value e) (address e)]
      | PatchType_3 \<Rightarrow> [])"

definition patch_writes :: "Patch \<Rightarrow> Event list" where
  "patch_writes p = concat (map entry_writes (entries p))"

text \<open>The writes of every active patch, in collection order.\<close>

definition active_writes :: "Patch list \<Rightarrow> Event list" where
  "active_writes patches = concat (map patch_writes (filter active patches))"

text \<open>The built-in override condition, and the writes of every patch that is active
  or meets it.\<close>

definition music_override :: "SConfig \<Rightarrow> Patch \<Rightarrow> bool" where
  "music_override cfg p = (bBrawlMusicOff cfg \<and> name p = ''[P+] Music Off'')"

definition applied_writes :: "SConfig \<Rightarrow> Patch list \<Rightarrow> Event list" where
  "applied_writes cfg patches =
     concat (map patch_writes (filter (\<lambda>p. active p \<or> music_override cfg p) patches))"

section \<open>A string utility and inputs for the examples\<close>

text \<open>
  Modelled from the spec: \<^verbatim>\<open>TryParse\<close> and \<^verbatim>\<open>SplitString\<close> of \<^verbatim>\<open>Common/StringUtil\<close>
  are missing from the sources at hand; the design calls them an unsigned integer parse
  and a split into fields at the separator. Every general theorem below holds for an
  arbitrary \<open>StringUtil\<close>; this decimal parser and this splitter only instantiate the
  parameter at concrete inputs.
\<close>

definition digit_of :: "char \<Rightarrow> nat option" where
  "digit_of c =
     map_of [(CHR ''0'', 0), (CHR ''1'', 1), (CHR ''2'', 2), (CHR ''3'', 3), (CHR ''4'', 4),
             (CHR ''5'', 5), (CHR ''6'', 6), (CHR ''7'', 7), (CHR ''8'', 8), (CHR ''9'', 9)] c"

fun parse_digits :: "nat \<Rightarrow> string \<Rightarrow> nat option" where
  "parse_digits acc [] = Some acc"
| "parse_digits acc (c # cs) =
     (case digit_of c of None \<Rightarrow> None | Some d \<Rightarrow> parse_digits (10 * acc + d) cs)"

definition TryParse_decimal :: "string \<Rightarrow> u32 option" where
  "TryParse_decimal s =
     (if s = [] then None
      else (case parse_digits 0 s of
              None \<Rightarrow> None
            | Some n \<Rightarrow> if n < 2 ^ 32 then Some (word_of_nat n) else None))"

fun split_fields :: "char \<Rightarrow> string \<Rightarrow> string \<Rightarrow> string list" where
  "split_fields delim field [] = (if field = [] then [] else [field])"
| "split_fields delim field (c # cs) =
     (if c = delim then field # split_fields delim [] cs
      else split_fields delim (field @ [c]) cs)"

definition decimal_util :: StringUtil where
  "decimal_util =
     \<lparr>TryParse = TryParse_decimal, SplitString = (\<lambda>str delim. split_fields delim [] str)\<rparr>"

text \<open>A default source whose section holds two markers in a row.\<close>

definition ini_two_markers :: IniFile where
  "ini_two_markers =
     \<lparr>GetLines = (\<lambda>section. if section = ''OnFrame'' then [''$A'', ''$B''] else []),
      GetKeys = (\<lambda>section. []), Get = (\<lambda>section key. None)\<rparr>"

definition ini_empty :: IniFile where
  "ini_empty = \<lparr>GetLines = (\<lambda>section. []), GetKeys = (\<lambda>section. []), Get = (\<lambda>section key. None)\<rparr>"

text \<open>A default source with patch \<open>A\<close>; an override source with patch \<open>B\<close> that enables
  \<open>A\<close> only; a merged view whose keys \<open>100\<close> and \<open>0100\<close> name the same address.\<close>

definition ini_default :: IniFile where
  "ini_default =
     \<lparr>GetLines = (\<lambda>section. if section = ''OnFrame'' then [''$A'', ''16:byte:258'', ''oops''] else []),
      GetKeys = (\<lambda>section. []), Get = (\<lambda>section key. None)\<rparr>"

definition ini_local :: IniFile where
  "ini_local =
     \<lparr>GetLines = (\<lambda>section.
        if section = ''OnFrame'' then [''$B'', ''32=dword:7'']
        else if section = ''OnFrame_Enabled'' then [''$A'']
        else []),
      GetKeys = (\<lambda>section. []), Get = (\<lambda>section key. None)\<rparr>"

definition ini_merged :: IniFile where
  "ini_merged =
     \<lparr>GetLines = (\<lambda>section. []),
      GetKeys = (\<lambda>section. if section = ''Speedhacks'' then [''100'', ''x'', ''0100''] else []),
      Get = (\<lambda>section key.
        if section = ''Speedhacks'' then
          (if key = ''100'' then Some ''5''
           else if key = ''x'' then Some ''9''
           else if key = ''0100'' then Some ''4294967295''
           else None)
        else None)\<rparr>"

definition config_example :: SConfig where
  "config_example =
     \<lparr>bBrawlMusicOff = False, LoadGameIni = ini_merged,
      LoadDefaultGameIni = ini_default, LoadLocalGameIni = ini_local\<rparr>"

text \<open>A machine with both translation bits set and two plausible stack frames.\<close>

definition machine_sane :: Machine where
  "machine_sane =
     \<lparr>MSR_DR = True, MSR_IR = True, GPR1 = 0x80001000,
      HostIsRAMAddress = (\<lambda>a. 0x80000000 \<le> a \<and> a < 0x81800000),
      HostIsInstructionRAMAddress = (\<lambda>a. 0x80000000 \<le> a \<and> a < 0x81800000),
      HostRead_U32 = (\<lambda>a.
        if a = 0x80001000 then 0x80001010
        else if a = 0x80001014 then 0x80003000
        else if a = 0x80003000 then 0x4E800020
        else 0)\<rparr>"

text \<open>The music-off flag set, and a collection with one active patch and one inactive
  patch of the built-in name.\<close>

definition config_music_off :: SConfig where
  "config_music_off =
     \<lparr>bBrawlMusicOff = True, LoadGameIni = ini_empty,
      LoadDefaultGameIni = ini_empty, LoadLocalGameIni = ini_empty\<rparr>"

definition engine_music :: Engine where
  "engine_music =
     \<lparr>onFrame =
        [\<lparr>name = ''T'', entries = [\<lparr>type = PATCH_32BIT, address = 0x80001234, value = 0\<rparr>],
          active = True, user_defined = False\<rparr>,
         \<lparr>name = ''[P+] Music Off'',
          entries = [\<lparr>type = PATCH_8BIT, address = 0x90E60F34, value = 0x1FF\<rparr>],
          active = False, user_defined = True\<rparr>],
      speedHacks = Map.empty\<rparr>"

section \<open>Properties of the patch loader\<close>

text \<open>
  C1 (fails on the code): every patch committed by \<^verbatim>\<open>LoadPatchSection\<close> should have at
  least one entry. The commit at the end of a source (line 121) checks this, the commit
  at a marker line (line 81) does not: on a section with the two lines \<^verbatim>\<open>$A\<close> and
  \<^verbatim>\<open>$B\<close>, patch \<open>A\<close> is committed with no entry.
\<close>

theorem C1_marker_commits_patch_without_entries:
  "LoadPatchSection su ''OnFrame'' [] ini_two_markers ini_empty =
     [\<lparr>name = ''A'', entries = [], active = False, user_defined = False\<rparr>]"
  by (simp add: LoadPatchSection_def LoadPatchIni_def LoadPatchLine_def
      ini_two_markers_def ini_empty_def Patch_default_def)

lemma enabledNames_of_eq:
  "enabledNames_of enabledLines s = s \<union> {n. CHR ''$'' # n \<in> set enabledLines}"
proof (induction enabledLines arbitrary: s)
  case Nil
  then show ?case by simp
next
  case (Cons line ls)
  show ?case
    by (cases line) (auto simp: Cons.IH)
qed

lemma LoadPatchLine_frame:
  "LoadPatchLine su en loc line (old @ ps, cur) =
     (old @ fst (LoadPatchLine su en loc line (ps, cur)),
      snd (LoadPatchLine su en loc line (ps, cur)))"
  by (cases line) (auto simp: LoadPatchLine_def split: option.splits)

lemma LoadPatchLines_frame:
  "LoadPatchLines su en loc lines (old @ ps, cur) =
     (old @ fst (LoadPatchLines su en loc lines (ps, cur)),
      snd (LoadPatchLines su en loc lines (ps, cur)))"
proof (induction lines arbitrary: ps cur)
  case Nil
  then show ?case by simp
next
  case (Cons line lines)
  obtain ps' cur' where step: "LoadPatchLine su en loc line (ps, cur) = (ps', cur')"
    by (cases "LoadPatchLine su en loc line (ps, cur)")
  have "LoadPatchLine su en loc line (old @ ps, cur) = (old @ ps', cur')"
    using LoadPatchLine_frame [of su en loc line old ps cur] step by simp
  then show ?case
    using Cons.IH [of ps' cur'] step by simp
qed

lemma LoadPatchIni_frame:
  "LoadPatchIni su en loc lines (old @ ps) = old @ LoadPatchIni su en loc lines ps"
  unfolding LoadPatchIni_def
  by (subst LoadPatchLines_frame) (simp add: case_prod_beta)

lemma LoadPatchSection_frame:
  "LoadPatchSection su section patches globalIni localIni =
     patches @ LoadPatchSection su section [] globalIni localIni"
proof -
  have a: "LoadPatchIni su en loc lines patches = patches @ LoadPatchIni su en loc lines []"
    for en loc lines
    using LoadPatchIni_frame [of su en loc lines patches "[]"] by simp
  show ?thesis
    unfolding LoadPatchSection_def Let_def
    by (subst a) (simp add: LoadPatchIni_frame)
qed

lemma LoadPatchLine_flag_ok:
  assumes "list_all (flag_ok en) ps" "name cur \<noteq> [] \<longrightarrow> flag_ok en cur"
    and "LoadPatchLine su en loc line (ps, cur) = (ps', cur')"
  shows "list_all (flag_ok en) ps' \<and> (name cur' \<noteq> [] \<longrightarrow> flag_ok en cur')"
  using assms
  by (cases line) (auto simp: LoadPatchLine_def flag_ok_def split: option.splits if_splits)

lemma LoadPatchLines_flag_ok:
  assumes "list_all (flag_ok en) ps" "name cur \<noteq> [] \<longrightarrow> flag_ok en cur"
    and "LoadPatchLines su en loc lines (ps, cur) = (ps', cur')"
  shows "list_all (flag_ok en) ps' \<and> (name cur' \<noteq> [] \<longrightarrow> flag_ok en cur')"
  using assms
proof (induction lines arbitrary: ps cur)
  case Nil
  then show ?case by simp
next
  case (Cons line lines)
  obtain ps1 cur1 where step: "LoadPatchLine su en loc line (ps, cur) = (ps1, cur1)"
    by (cases "LoadPatchLine su en loc line (ps, cur)")
  have inv1: "list_all (flag_ok en) ps1 \<and> (name cur1 \<noteq> [] \<longrightarrow> flag_ok en cur1)"
    using LoadPatchLine_flag_ok [OF Cons.prems(1) Cons.prems(2) step] .
  have "LoadPatchLines su en loc lines (ps1, cur1) = (ps', cur')"
    using Cons.prems(3) step by simp
  then show ?case
    using Cons.IH [of ps1 cur1] inv1 by blast
qed

lemma LoadPatchIni_flag_ok:
  assumes "list_all (flag_ok en) ps"
  shows "list_all (flag_ok en) (LoadPatchIni su en loc lines ps)"
proof -
  obtain ps' cur' where run: "LoadPatchLines su en loc lines (ps, Patch_default) = (ps', cur')"
    by (cases "LoadPatchLines su en loc lines (ps, Patch_default)")
  have "name Patch_default \<noteq> [] \<longrightarrow> flag_ok en Patch_default"
    by (simp add: Patch_default_def)
  from LoadPatchLines_flag_ok [OF assms this run]
  show ?thesis
    by (simp add: LoadPatchIni_def run)
qed

text \<open>The initial flags of \<^verbatim>\<open>currentPatch\<close> never reach the collection.\<close>

lemma marker_overwrites:
  "c1\<lparr>entries := es, name := n, active := a, user_defined := u\<rparr> =
   c2\<lparr>entries := es, name := n, active := a, user_defined := (u :: bool)\<rparr>"
  for c1 c2 :: Patch
  by (cases c1; cases c2) simp

lemma LoadPatchLine_flags:
  assumes "name c1 = name c2" and "entries c1 = entries c2" and "name c1 \<noteq> [] \<longrightarrow> c1 = c2"
  shows "fst (LoadPatchLine su en loc line (ps, c1)) = fst (LoadPatchLine su en loc line (ps, c2))
    \<and> name (snd (LoadPatchLine su en loc line (ps, c1))) =
        name (snd (LoadPatchLine su en loc line (ps, c2)))
    \<and> entries (snd (LoadPatchLine su en loc line (ps, c1))) =
        entries (snd (LoadPatchLine su en loc line (ps, c2)))
    \<and> (name (snd (LoadPatchLine su en loc line (ps, c1))) \<noteq> [] \<longrightarrow>
         snd (LoadPatchLine su en loc line (ps, c1)) = snd (LoadPatchLine su en loc line (ps, c2)))"
proof (cases line)
  case Nil
  then show ?thesis
    using assms by (simp add: LoadPatchLine_def)
next
  case (Cons ch rest)
  show ?thesis
  proof (cases "ch = CHR ''$''")
    case True
    have r: "LoadPatchLine su en loc line (ps, c) =
        (if name c \<noteq> [] then ps @ [c] else ps,
         c\<lparr>entries := [], name := rest, active := (rest \<in> en), user_defined := loc\<rparr>)" for c
      using Cons True by (simp add: LoadPatchLine_def)
    have "(if name c1 \<noteq> [] then ps @ [c1] else ps) = (if name c2 \<noteq> [] then ps @ [c2] else ps)"
      using assms by (cases "name c1 = []") simp_all
    moreover have "c1\<lparr>entries := [], name := rest, active := (rest \<in> en), user_defined := loc\<rparr> =
        c2\<lparr>entries := [], name := rest, active := (rest \<in> en), user_defined := loc\<rparr>"
      by (rule marker_overwrites)
    ultimately show ?thesis
      unfolding r fst_conv snd_conv by simp
  next
    case False
    have r: "LoadPatchLine su en loc line (ps, c) =
        (ps, case ParseEntryLine su line of
               Some pE \<Rightarrow> c\<lparr>entries := entries c @ [pE]\<rparr> | None \<Rightarrow> c)" for c
      using Cons False by (simp add: LoadPatchLine_def split: option.splits)
    show ?thesis
      unfolding r fst_conv snd_conv
      using assms by (cases "ParseEntryLine su line") auto
  qed
qed

lemma LoadPatchLines_flags:
  assumes "name c1 = name c2" and "entries c1 = entries c2" and "name c1 \<noteq> [] \<longrightarrow> c1 = c2"
  shows "fst (LoadPatchLines su en loc lines (ps, c1)) = fst (LoadPatchLines su en loc lines (ps, c2))
    \<and> name (snd (LoadPatchLines su en loc lines (ps, c1))) =
        name (snd (LoadPatchLines su en loc lines (ps, c2)))
    \<and> entries (snd (LoadPatchLines su en loc lines (ps, c1))) =
        entries (snd (LoadPatchLines su en loc lines (ps, c2)))
    \<and> (name (snd (LoadPatchLines su en loc lines (ps, c1))) \<noteq> [] \<longrightarrow>
         snd (LoadPatchLines su en loc lines (ps, c1)) = snd (LoadPatchLines su en loc lines (ps, c2)))"
  using assms
proof (induction lines arbitrary: ps c1 c2)
  case Nil
  then show ?case by simp
next
  case (Cons line lines)
  obtain ps1 d1 where s1: "LoadPatchLine su en loc line (ps, c1) = (ps1, d1)"
    by (cases "LoadPatchLine su en loc line (ps, c1)")
  obtain ps2 d2 where s2: "LoadPatchLine su en loc line (ps, c2) = (ps2, d2)"
    by (cases "LoadPatchLine su en loc line (ps, c2)")
  have step: "ps1 = ps2" "name d1 = name d2" "entries d1 = entries d2"
    "name d1 \<noteq> [] \<longrightarrow> d1 = d2"
    using LoadPatchLine_flags [OF Cons.prems, of su en loc line ps]
    unfolding s1 s2 fst_conv snd_conv by blast+
  have run1: "LoadPatchLines su en loc (line # lines) (ps, c1) =
      LoadPatchLines su en loc lines (ps1, d1)"
    by (simp add: s1)
  have run2: "LoadPatchLines su en loc (line # lines) (ps, c2) =
      LoadPatchLines su en loc lines (ps1, d2)"
    by (simp add: s2 step(1))
  show ?case
    unfolding run1 run2 by (rule Cons.IH [OF step(2,3,4)])
qed

lemma LoadPatchIni_flags:
  "(case LoadPatchLines su en loc lines (patches, Patch_default\<lparr>active := a, user_defined := u\<rparr>) of
      (patches', currentPatch) \<Rightarrow>
        if name currentPatch \<noteq> [] \<and> entries currentPatch \<noteq> []
        then patches' @ [currentPatch] else patches')
   = LoadPatchIni su en loc lines patches"
proof -
  let ?c1 = "Patch_default\<lparr>active := a, user_defined := u\<rparr>"
  obtain p1 e1 where r1: "LoadPatchLines su en loc lines (patches, ?c1) = (p1, e1)"
    by (cases "LoadPatchLines su en loc lines (patches, ?c1)")
  obtain p2 e2 where r2: "LoadPatchLines su en loc lines (patches, Patch_default) = (p2, e2)"
    by (cases "LoadPatchLines su en loc lines (patches, Patch_default)")
  have "name ?c1 = name Patch_default" "entries ?c1 = entries Patch_default"
    "name ?c1 \<noteq> [] \<longrightarrow> ?c1 = Patch_default"
    by (simp_all add: Patch_default_def)
  from LoadPatchLines_flags [OF this, of su en loc lines patches]
  have same: "p1 = p2" "name e1 = name e2" "entries e1 = entries e2"
    "name e1 \<noteq> [] \<longrightarrow> e1 = e2"
    unfolding r1 r2 fst_conv snd_conv by blast+
  show ?thesis
  proof (cases "name e1 = []")
    case True
    with same show ?thesis
      unfolding LoadPatchIni_def r1 r2 by simp
  next
    case False
    with same have "e1 = e2" by blast
    with same(1) show ?thesis
      unfolding LoadPatchIni_def r1 r2 by simp
  qed
qed

subsection \<open>Entry lines\<close>

lemma token_type_find:
  "PatchType_of (std_find PatchTypeStrings tok) =
     (case token_type tok of Some t \<Rightarrow> t | None \<Rightarrow> PatchType_3)"
  by (simp add: PatchTypeStrings_def PatchType_of_def token_type_def)

lemma token_type_valid: "token_type tok = Some t \<Longrightarrow> t \<noteq> PatchType_3"
  by (auto simp: token_type_def split: if_splits)

lemma three_fields:
  assumes "3 \<le> length items"
  obtains f0 f1 f2 others where "items = f0 # f1 # f2 # others"
proof -
  from assms obtain f0 r0 where a: "items = f0 # r0" "2 \<le> length r0"
    by (cases items) auto
  then obtain f1 r1 where b: "r0 = f1 # r1" "1 \<le> length r1"
    by (cases r0) auto
  then obtain f2 r2 where c: "r1 = f2 # r2"
    by (cases r1) auto
  from a b c have "items = f0 # f1 # f2 # r2" by simp
  then show ?thesis by (rule that)
qed

lemma ParseEntryLine_fields:
  assumes items: "SplitString su (replace_first_eq line) CHR '':'' = f0 # f1 # f2 # others"
  shows "ParseEntryLine su line = entry_of_line su line"
proof (cases "token_type f1")
  case None
  then have "PatchType_of (std_find PatchTypeStrings f1) = PatchType_3"
    by (simp add: token_type_find)
  then show ?thesis
    by (simp add: ParseEntryLine_def entry_of_line_def items None split: option.splits)
next
  case (Some t)
  then have "PatchType_of (std_find PatchTypeStrings f1) = t" "t \<noteq> PatchType_3"
    by (simp_all add: token_type_find token_type_valid)
  then show ?thesis
    by (simp add: ParseEntryLine_def entry_of_line_def items Some split: option.splits)
qed

lemma short_list:
  assumes "\<not> 3 \<le> length xs"
  shows "xs = [] \<or> (\<exists>a. xs = [a]) \<or> (\<exists>a b. xs = [a, b])"
proof (cases xs)
  case Nil
  then show ?thesis by simp
next
  case (Cons a r)
  note outer = Cons
  show ?thesis
  proof (cases r)
    case Nil
    with outer show ?thesis by simp
  next
    case (Cons b r2)
    with outer assms have "r2 = []" by (cases r2) simp_all
    with outer Cons show ?thesis by simp
  qed
qed

lemma ParseEntryLine_few:
  assumes "\<not> 3 \<le> length (SplitString su (replace_first_eq line) CHR '':'')"
  shows "ParseEntryLine su line = entry_of_line su line"
proof -
  have "ParseEntryLine su line = None"
    using assms by (simp add: ParseEntryLine_def)
  moreover have "entry_of_line su line = None"
    using short_list [OF assms] by (auto simp: entry_of_line_def)
  ultimately show ?thesis by simp
qed

lemma ParseEntryLine_eq: "ParseEntryLine su line = entry_of_line su line"
proof (cases "3 \<le> length (SplitString su (replace_first_eq line) CHR '':'')")
  case True
  then obtain f0 f1 f2 others
    where "SplitString su (replace_first_eq line) CHR '':'' = f0 # f1 # f2 # others"
    by (rule three_fields)
  then show ?thesis
    by (rule ParseEntryLine_fields)
next
  case False
  then show ?thesis
    by (rule ParseEntryLine_few)
qed

lemma entry_of_line_Some_iff:
  "entry_of_line su line \<noteq> None \<longleftrightarrow>
     (\<exists>f0 f1 f2 others.
        SplitString su (replace_first_eq line) CHR '':'' = f0 # f1 # f2 # others
        \<and> TryParse su f0 \<noteq> None \<and> TryParse su f2 \<noteq> None
        \<and> f1 \<in> {''byte'', ''word'', ''dword''})"
  by (auto simp: entry_of_line_def token_type_def split: list.splits option.splits if_splits)

lemma LoadPatchLine_entry:
  assumes "line \<noteq> []" "hd line \<noteq> CHR ''$''"
  shows "LoadPatchLine su en loc line (patches, cur) =
     (patches, case entry_of_line su line of
                 Some e \<Rightarrow> cur\<lparr>entries := entries cur @ [e]\<rparr>
               | None \<Rightarrow> cur)"
  using assms
  by (cases line) (simp_all add: LoadPatchLine_def ParseEntryLine_eq split: option.splits)

lemma LoadPatchLines_append:
  "LoadPatchLines su en loc (xs @ ys) st =
     LoadPatchLines su en loc ys (LoadPatchLines su en loc xs st)"
  by (induction xs arbitrary: st) simp_all

lemma LoadPatchLines_drop_line:
  assumes "line \<noteq> []" "hd line \<noteq> CHR ''$''" "entry_of_line su line = None"
  shows "LoadPatchLines su en loc (before @ line # after) st =
         LoadPatchLines su en loc (before @ after) st"
proof -
  obtain ps cur where st': "LoadPatchLines su en loc before st = (ps, cur)"
    by (cases "LoadPatchLines su en loc before st")
  have "LoadPatchLine su en loc line (ps, cur) = (ps, cur)"
    using LoadPatchLine_entry [OF assms(1,2)] assms(3) by simp
  then show ?thesis
    by (simp add: LoadPatchLines_append st')
qed

text \<open>
  C5: a non-empty line that does not start with the marker appends an entry to the current
  patch exactly when, after the first \<^verbatim>\<open>=\<close> is normalised, it splits into at least three
  fields, fields 0 and 2 parse as unsigned integers and field 1 is one of the tokens
  \<^verbatim>\<open>byte\<close>, \<^verbatim>\<open>word\<close>, \<^verbatim>\<open>dword\<close> (case-sensitive); the entry carries the three parsed
  fields. Any other line is dropped: the collection and the current patch are unchanged,
  and the load is the load of the section without that line. The loader is a total
  function into patch lists: a malformed line has no way to fail the load.
\<close>

theorem C5_entry_line:
  assumes "line \<noteq> []" and "hd line \<noteq> CHR ''$''"
  shows "LoadPatchLine su en loc line (patches, cur) =
           (patches, case entry_of_line su line of
                       Some e \<Rightarrow> cur\<lparr>entries := entries cur @ [e]\<rparr>
                     | None \<Rightarrow> cur)
    \<and> (entry_of_line su line \<noteq> None \<longleftrightarrow>
           (\<exists>f0 f1 f2 others.
              SplitString su (replace_first_eq line) CHR '':'' = f0 # f1 # f2 # others
              \<and> TryParse su f0 \<noteq> None \<and> TryParse su f2 \<noteq> None
              \<and> f1 \<in> {''byte'', ''word'', ''dword''}))
    \<and> (entry_of_line su line = None \<longrightarrow>
           LoadPatchLines su en loc (before @ line # after) st =
           LoadPatchLines su en loc (before @ after) st)"
proof (intro conjI impI)
  show "LoadPatchLine su en loc line (patches, cur) =
           (patches, case entry_of_line su line of
                       Some e \<Rightarrow> cur\<lparr>entries := entries cur @ [e]\<rparr>
                     | None \<Rightarrow> cur)"
    using assms by (rule LoadPatchLine_entry)
next
  show "entry_of_line su line \<noteq> None \<longleftrightarrow>
           (\<exists>f0 f1 f2 others.
              SplitString su (replace_first_eq line) CHR '':'' = f0 # f1 # f2 # others
              \<and> TryParse su f0 \<noteq> None \<and> TryParse su f2 \<noteq> None
              \<and> f1 \<in> {''byte'', ''word'', ''dword''})"
    by (rule entry_of_line_Some_iff)
next
  assume "entry_of_line su line = None"
  with assms show "LoadPatchLines su en loc (before @ line # after) st =
           LoadPatchLines su en loc (before @ after) st"
    by (rule LoadPatchLines_drop_line)
qed

lemma entry_examples:
  "entry_of_line decimal_util ''16:byte:258'' =
     Some \<lparr>type = PATCH_8BIT, address = 16, value = 258\<rparr>"
  "entry_of_line decimal_util ''32=dword:7'' =
     Some \<lparr>type = PATCH_32BIT, address = 32, value = 7\<rparr>"
  "entry_of_line decimal_util ''16:Byte:258'' = None"
  "entry_of_line decimal_util ''oops'' = None"
  by (simp_all add: entry_of_line_def decimal_util_def TryParse_decimal_def digit_of_def
      token_type_def)

theorem C5_entry_line_witness:
  "LoadPatchLine decimal_util {} False ''32=dword:7'' ([], Patch_default) =
     ([], Patch_default\<lparr>entries := [\<lparr>type = PATCH_32BIT, address = 32, value = 7\<rparr>]\<rparr>)
   \<and> LoadPatchLine decimal_util {} False ''16:Byte:258'' ([], Patch_default) = ([], Patch_default)
   \<and> LoadPatchLines decimal_util {} False ([''$A''] @ ''16:Byte:258'' # [''16:byte:258''])
        ([], Patch_default) =
      LoadPatchLines decimal_util {} False ([''$A''] @ [''16:byte:258'']) ([], Patch_default)"
  using C5_entry_line [of "''32=dword:7''" decimal_util "{}" False "[]" Patch_default]
    C5_entry_line [of "''16:Byte:258''" decimal_util "{}" False "[]" Patch_default "[''$A'']"
      "[''16:byte:258'']" "([], Patch_default)"]
  by (simp add: entry_examples Patch_default_def)

subsection \<open>The active flag\<close>

text \<open>
  C6: every patch that \<^verbatim>\<open>LoadPatchSection\<close> appends to the collection, from the default
  source or from the override source, is active exactly when its name occurs as a
  \<^verbatim>\<open>$\<close>-prefixed line in the section \<^verbatim>\<open><section>_Enabled\<close> of the override source.
\<close>

theorem C6_active_iff_enabled:
  "\<forall>p \<in> set (drop (length patches) (LoadPatchSection su section patches globalIni localIni)).
     active p \<longleftrightarrow> CHR ''$'' # name p \<in> set (GetLines localIni (section @ ''_Enabled''))"
proof -
  let ?en = "enabledNames_of (GetLines localIni (section @ ''_Enabled'')) {}"
  have "list_all (flag_ok ?en) (LoadPatchSection su section [] globalIni localIni)"
    unfolding LoadPatchSection_def Let_def
    by (intro LoadPatchIni_flag_ok) simp
  moreover have "drop (length patches) (LoadPatchSection su section patches globalIni localIni)
      = LoadPatchSection su section [] globalIni localIni"
    by (subst LoadPatchSection_frame) simp
  ultimately show ?thesis
    by (simp add: list_all_iff flag_ok_def enabledNames_of_eq)
qed

lemma example_section:
  "LoadPatchSection decimal_util ''OnFrame'' [] ini_default ini_local =
     [\<lparr>name = ''A'', entries = [\<lparr>type = PATCH_8BIT, address = 16, value = 258\<rparr>],
       active = True, user_defined = False\<rparr>,
      \<lparr>name = ''B'', entries = [\<lparr>type = PATCH_32BIT, address = 32, value = 7\<rparr>],
       active = False, user_defined = True\<rparr>]"
  by (simp add: LoadPatchSection_def LoadPatchIni_def LoadPatchLine_def ParseEntryLine_eq
      entry_examples ini_default_def ini_local_def Patch_default_def)

theorem C6_active_iff_enabled_witness:
  "LoadPatchSection decimal_util ''OnFrame'' [] ini_default ini_local \<noteq> []
   \<and> list_all (\<lambda>p. active p \<longleftrightarrow> CHR ''$'' # name p \<in> set (GetLines ini_local ''OnFrame_Enabled''))
        (LoadPatchSection decimal_util ''OnFrame'' [] ini_default ini_local)
   \<and> map active (LoadPatchSection decimal_util ''OnFrame'' [] ini_default ini_local) = [True, False]"
  using C6_active_iff_enabled [of "[]" decimal_util "''OnFrame''" ini_default ini_local]
  by (simp add: example_section list_all_iff)

section \<open>Properties of the speedhack table\<close>

lemma sint_negative:
  fixes c :: u32
  assumes "2 ^ 31 \<le> uint c"
  shows "sint c = uint c - 2 ^ 32"
proof -
  define n where "n = uint c - 2 ^ 31"
  have ub: "uint c < 2 ^ 32"
    using uint_bounded [of c] by simp
  have n: "0 \<le> n" "n < 2 ^ 31"
    using assms ub by (simp_all add: n_def)
  have "sint c = take_bit 32 (uint c + 2 ^ 31) - 2 ^ 31"
    by (simp add: sint_uint signed_take_bit_eq_take_bit_shift)
  also have "uint c + 2 ^ 31 = n + 1 * 2 ^ 32"
    by (simp add: n_def)
  also have "take_bit 32 (n + 1 * 2 ^ 32) = n mod 2 ^ 32"
    unfolding take_bit_eq_mod by (rule mod_mult_self1)
  also have "n mod 2 ^ 32 = n"
    using n by (intro mod_pos_pos_trivial) simp_all
  finally show ?thesis
    by (simp add: n_def)
qed

lemma LoadSpeedhackKeys_append:
  "LoadSpeedhackKeys su section ini (xs @ ys) tbl =
     LoadSpeedhackKeys su section ini ys (LoadSpeedhackKeys su section ini xs tbl)"
  by (induction xs arbitrary: tbl) simp_all

lemma LoadSpeedhackKey_other:
  "TryParse su key \<noteq> Some a \<Longrightarrow> LoadSpeedhackKey su section ini key tbl a = tbl a"
  by (auto simp: LoadSpeedhackKey_def Let_def split: option.splits)

lemma LoadSpeedhackKeys_other:
  "\<forall>k \<in> set keys. TryParse su k \<noteq> Some a \<Longrightarrow>
     LoadSpeedhackKeys su section ini keys tbl a = tbl a"
  by (induction keys arbitrary: tbl) (simp_all add: LoadSpeedhackKey_other)

lemma LoadSpeedhackKey_hit:
  assumes "TryParse su key = Some a"
    and "Section_Get ini section key ''BOGUS'' \<noteq> ''BOGUS''"
    and "TryParse su (Section_Get ini section key ''BOGUS'') = Some c"
  shows "LoadSpeedhackKey su section ini key tbl a = Some (sint c)"
  using assms by (simp add: LoadSpeedhackKey_def Let_def)

lemma LoadSpeedhackKey_fail:
  assumes "TryParse su key = None \<or> TryParse su (Section_Get ini section key ''BOGUS'') = None"
  shows "LoadSpeedhackKey su section ini key tbl = tbl"
  using assms by (auto simp: LoadSpeedhackKey_def Let_def split: option.splits)

lemma LoadSpeedhackKeys_last:
  assumes "TryParse su key = Some a"
    and "Section_Get ini section key ''BOGUS'' \<noteq> ''BOGUS''"
    and "TryParse su (Section_Get ini section key ''BOGUS'') = Some c"
    and "\<forall>k \<in> set later. TryParse su k \<noteq> Some a"
  shows "LoadSpeedhackKeys su section ini (earlier @ key # later) tbl a = Some (sint c)"
proof -
  let ?t1 = "LoadSpeedhackKeys su section ini earlier tbl"
  have "LoadSpeedhackKeys su section ini (earlier @ key # later) tbl a =
        LoadSpeedhackKeys su section ini later (LoadSpeedhackKey su section ini key ?t1) a"
    by (simp add: LoadSpeedhackKeys_append)
  also have "\<dots> = LoadSpeedhackKey su section ini key ?t1 a"
    using assms(4) by (rule LoadSpeedhackKeys_other)
  also have "\<dots> = Some (sint c)"
    using assms(1-3) by (rule LoadSpeedhackKey_hit)
  finally show ?thesis .
qed

lemma LoadSpeedhackKeys_drop_key:
  assumes "TryParse su key = None \<or> TryParse su (Section_Get ini section key ''BOGUS'') = None"
  shows "LoadSpeedhackKeys su section ini (before @ key # after) tbl =
         LoadSpeedhackKeys su section ini (before @ after) tbl"
  using LoadSpeedhackKey_fail [OF assms]
  by (simp add: LoadSpeedhackKeys_append)

text \<open>
  C7: \<^verbatim>\<open>GetSpeedhackCycles\<close> is 0 at an address the table does not hold; when two scanned
  keys parse to the same address and the later one is the last key of that address, with
  a value that parses, the table holds the later value; a key or value that fails to parse
  leaves the table as it was, and the load is the load without that key.
\<close>

theorem C7_speedhack_table:
  "(speedHacks eng addr = None \<longrightarrow> GetSpeedhackCycles eng addr = 0)
   \<and> (GetKeys ini section = xs @ k1 # ys @ k2 # zs
        \<and> TryParse su k1 = Some a \<and> TryParse su k2 = Some a
        \<and> (\<forall>k \<in> set zs. TryParse su k \<noteq> Some a)
        \<and> Section_Get ini section k2 ''BOGUS'' \<noteq> ''BOGUS''
        \<and> TryParse su (Section_Get ini section k2 ''BOGUS'') = Some c2
      \<longrightarrow> LoadSpeedhacks su section ini tbl a = Some (sint c2)
          \<and> GetSpeedhackCycles \<lparr>onFrame = ps, speedHacks = LoadSpeedhacks su section ini tbl\<rparr> a
              = sint c2)
   \<and> (TryParse su k = None \<or> TryParse su (Section_Get ini section k ''BOGUS'') = None
      \<longrightarrow> LoadSpeedhackKey su section ini k tbl = tbl
          \<and> LoadSpeedhackKeys su section ini (before @ k # after) tbl =
              LoadSpeedhackKeys su section ini (before @ after) tbl)"
proof (intro conjI impI)
  assume "speedHacks eng addr = None"
  then show "GetSpeedhackCycles eng addr = 0"
    by (simp add: GetSpeedhackCycles_def)
next
  assume h: "GetKeys ini section = xs @ k1 # ys @ k2 # zs
        \<and> TryParse su k1 = Some a \<and> TryParse su k2 = Some a
        \<and> (\<forall>k \<in> set zs. TryParse su k \<noteq> Some a)
        \<and> Section_Get ini section k2 ''BOGUS'' \<noteq> ''BOGUS''
        \<and> TryParse su (Section_Get ini section k2 ''BOGUS'') = Some c2"
  have "LoadSpeedhackKeys su section ini ((xs @ k1 # ys) @ k2 # zs) tbl a = Some (sint c2)"
    using h by (intro LoadSpeedhackKeys_last) simp_all
  then show l: "LoadSpeedhacks su section ini tbl a = Some (sint c2)"
    using h by (simp add: LoadSpeedhacks_def)
  then show "GetSpeedhackCycles \<lparr>onFrame = ps, speedHacks = LoadSpeedhacks su section ini tbl\<rparr> a
              = sint c2"
    by (simp add: GetSpeedhackCycles_def)
next
  assume f: "TryParse su k = None \<or> TryParse su (Section_Get ini section k ''BOGUS'') = None"
  then show "LoadSpeedhackKey su section ini k tbl = tbl"
    by (rule LoadSpeedhackKey_fail)
  from f show "LoadSpeedhackKeys su section ini (before @ k # after) tbl =
              LoadSpeedhackKeys su section ini (before @ after) tbl"
    by (rule LoadSpeedhackKeys_drop_key)
qed

lemma decimal_examples: "TryParse decimal_util ''100'' = Some 100" "TryParse decimal_util ''0100'' = Some 100"
  "TryParse decimal_util ''x'' = None" "TryParse decimal_util ''4294967295'' = Some 4294967295"
  "TryParse decimal_util ''5'' = Some 5"
  by (simp_all add: decimal_util_def TryParse_decimal_def digit_of_def)

theorem C7_speedhack_table_witness:
  "GetSpeedhackCycles \<lparr>onFrame = [], speedHacks = Map.empty\<rparr> 100 = 0
   \<and> GetSpeedhackCycles
        \<lparr>onFrame = [], speedHacks = LoadSpeedhacks decimal_util ''Speedhacks'' ini_merged Map.empty\<rparr>
        100 = - 1
   \<and> LoadSpeedhackKey decimal_util ''Speedhacks'' ini_merged ''x'' Map.empty = Map.empty"
  using C7_speedhack_table [of "\<lparr>onFrame = [], speedHacks = Map.empty\<rparr>" 100 ini_merged "''Speedhacks''" "[]"
      "''100''" "[''x'']" "''0100''" "[]" decimal_util 100 4294967295 Map.empty "[]"
      "''x''" "[]" "[]"]
  by (simp add: decimal_examples ini_merged_def Section_Get_def)

text \<open>
  C10: the cycle count is parsed as an unsigned 32-bit number and stored through the cast
  to \<^verbatim>\<open>int\<close>: for a configured value \<open>v\<close> with \<open>2 ^ 31 \<le> v < 2 ^ 32\<close> (the last key of
  its address) the table entry and \<^verbatim>\<open>GetSpeedhackCycles\<close> are the negative number
  \<open>v - 2 ^ 32\<close>.
\<close>

theorem C10_cycles_signed_cast:
  assumes "GetKeys (LoadGameIni cfg) ''Speedhacks'' = earlier @ key # later"
    and "TryParse su key = Some a"
    and "\<forall>k \<in> set later. TryParse su k \<noteq> Some a"
    and "Section_Get (LoadGameIni cfg) ''Speedhacks'' key ''BOGUS'' \<noteq> ''BOGUS''"
    and "TryParse su (Section_Get (LoadGameIni cfg) ''Speedhacks'' key ''BOGUS'') = Some cycles"
    and "2 ^ 31 \<le> uint cycles"
  shows "speedHacks (LoadPatches su cfg eng) a = Some (uint cycles - 2 ^ 32)
         \<and> GetSpeedhackCycles (LoadPatches su cfg eng) a = uint cycles - 2 ^ 32
         \<and> GetSpeedhackCycles (LoadPatches su cfg eng) a < 0"
proof -
  have "speedHacks (LoadPatches su cfg eng) a =
        LoadSpeedhackKeys su ''Speedhacks'' (LoadGameIni cfg) (earlier @ key # later)
          (speedHacks eng) a"
    by (simp add: LoadPatches_def LoadSpeedhacks_def assms(1))
  also have "\<dots> = Some (sint cycles)"
    using assms(2,4,5,3) by (rule LoadSpeedhackKeys_last)
  also have "sint cycles = uint cycles - 2 ^ 32"
    using assms(6) by (rule sint_negative)
  finally have tbl: "speedHacks (LoadPatches su cfg eng) a = Some (uint cycles - 2 ^ 32)" .
  have "uint cycles < 2 ^ 32"
    using uint_bounded [of cycles] by simp
  with tbl show ?thesis
    by (simp add: GetSpeedhackCycles_def)
qed

theorem C10_cycles_signed_cast_witness:
  "GetSpeedhackCycles (LoadPatches decimal_util config_example Idle) 100 = - 1"
  using C10_cycles_signed_cast [of config_example "[''100'', ''x'']" "''0100''" "[]" decimal_util 100 4294967295 Idle]
  by (simp add: decimal_examples config_example_def ini_merged_def Section_Get_def)

section \<open>Properties of the lifecycle\<close>

text \<open>
  C8: for a fixed configuration, \<^verbatim>\<open>Reload\<close> from any state, in particular from the state
  the first load produced, yields the patch collection and the speedhack table of the
  first load from the idle state.
\<close>

theorem C8_Reload_reproduces_Load:
  "onFrame (Reload su cfg eng) = onFrame (LoadPatches su cfg Idle)
   \<and> speedHacks (Reload su cfg eng) = speedHacks (LoadPatches su cfg Idle)
   \<and> Reload su cfg (LoadPatches su cfg Idle) = LoadPatches su cfg Idle"
proof -
  have cleared: "Shutdown e = Idle" for e
    by (simp add: Shutdown_def Idle_def)
  then have "Reload su cfg e = LoadPatches su cfg Idle" for e
    by (simp add: Reload_def)
  then show ?thesis by simp
qed

text \<open>The \<^verbatim>\<open>Shutdown\<close> matters: a second load without it appends the collection to
  itself.\<close>

lemma LoadPatches_again_appends:
  "onFrame (LoadPatches su cfg (LoadPatches su cfg Idle)) =
     onFrame (LoadPatches su cfg Idle) @ onFrame (LoadPatches su cfg Idle)"
proof -
  let ?first = "LoadPatchSection su ''OnFrame'' [] (LoadDefaultGameIni cfg) (LoadLocalGameIni cfg)"
  have "onFrame (LoadPatches su cfg Idle) = ?first"
    by (simp add: LoadPatches_def Idle_def)
  moreover have "onFrame (LoadPatches su cfg (LoadPatches su cfg Idle)) =
      LoadPatchSection su ''OnFrame'' ?first (LoadDefaultGameIni cfg) (LoadLocalGameIni cfg)"
    by (simp add: LoadPatches_def Idle_def)
  ultimately show ?thesis
    using LoadPatchSection_frame [of su "''OnFrame''" ?first] by simp
qed

theorem C8_Reload_reproduces_Load_witness:
  "Reload decimal_util config_example (LoadPatches decimal_util config_example Idle) =
     LoadPatches decimal_util config_example Idle
   \<and> map name (onFrame (Reload decimal_util config_example
        (LoadPatches decimal_util config_example Idle))) = [''A'', ''B'']"
  using C8_Reload_reproduces_Load [of decimal_util config_example "LoadPatches decimal_util config_example Idle"]
  by (simp add: LoadPatches_def Idle_def config_example_def example_section)

section \<open>Properties of the patch applier and the frame hook\<close>

text \<open>
  C9: \<^verbatim>\<open>IsEnabledMusicCode\<close> returns a value only for a patch named
  \<^verbatim>\<open>[P+] Music Off\<close> while the music-off flag is set, and that value is true; for every
  other patch the call ends without a value, so \<^verbatim>\<open>ApplyPatches\<close> has no defined outcome
  on a collection that holds an inactive patch of that kind.
\<close>

theorem C9_IsEnabledMusicCode_partial:
  "(IsEnabledMusicCode cfg p \<noteq> None \<longleftrightarrow> bBrawlMusicOff cfg \<and> name p = ''[P+] Music Off'')
   \<and> (bBrawlMusicOff cfg \<and> name p = ''[P+] Music Off'' \<longrightarrow> IsEnabledMusicCode cfg p = Some True)
   \<and> (p \<in> set patches \<and> \<not> active p \<and> \<not> (bBrawlMusicOff cfg \<and> name p = ''[P+] Music Off'')
        \<longrightarrow> ApplyPatches cfg patches issued = Inl MissingReturn)"
proof (intro conjI impI)
  show "IsEnabledMusicCode cfg p \<noteq> None \<longleftrightarrow> bBrawlMusicOff cfg \<and> name p = ''[P+] Music Off''"
    by (auto simp: IsEnabledMusicCode_def)
next
  assume "bBrawlMusicOff cfg \<and> name p = ''[P+] Music Off''"
  then show "IsEnabledMusicCode cfg p = Some True"
    by (simp add: IsEnabledMusicCode_def)
next
  assume h: "p \<in> set patches \<and> \<not> active p \<and> \<not> (bBrawlMusicOff cfg \<and> name p = ''[P+] Music Off'')"
  then have none: "IsEnabledMusicCode cfg p = None"
    by (simp add: IsEnabledMusicCode_def)
  from h have "p \<in> set patches" "\<not> active p" by simp_all
  then show "ApplyPatches cfg patches issued = Inl MissingReturn"
  proof (induction patches arbitrary: issued)
    case Nil
    then show ?case by simp
  next
    case (Cons q qs)
    show ?case
    proof (cases "q = p")
      case True
      then show ?thesis
        using Cons.prems(2) none by simp
    next
      case False
      then have "p \<in> set qs"
        using Cons.prems(1) by simp
      then have rest: "ApplyPatches cfg qs tr = Inl MissingReturn" for tr
        using Cons.IH Cons.prems(2) by simp
      show ?thesis
        by (simp add: rest IsEnabledMusicCode_def)
    qed
  qed
qed

theorem C9_IsEnabledMusicCode_partial_witness:
  "IsEnabledMusicCode config_example \<lparr>name = ''B'', entries = [], active = False, user_defined = True\<rparr> = None
   \<and> IsEnabledMusicCode config_music_off (onFrame engine_music ! 1) = Some True
   \<and> ApplyPatches config_example
        [\<lparr>name = ''B'', entries = [], active = False, user_defined = True\<rparr>] [] = Inl MissingReturn"
  using C9_IsEnabledMusicCode_partial [of config_example "\<lparr>name = ''B'', entries = [], active = False, user_defined = True\<rparr>"
      "[\<lparr>name = ''B'', entries = [], active = False, user_defined = True\<rparr>]" "[]"]
    C9_IsEnabledMusicCode_partial [of config_music_off "onFrame engine_music ! 1" "[]" "[]"]
  by (simp add: config_example_def config_music_off_def engine_music_def)

lemma machine_sane_IsStackSane: "IsStackSane machine_sane = Inr True"
  by (simp add: IsStackSane_def machine_sane_def)

lemma machine_bad_sp: "IsStackSane (machine_sane\<lparr>GPR1 := 0\<rparr>) = Inr False"
  by (simp add: IsStackSane_def machine_sane_def)

text \<open>
  C2: when data translation is off, or instruction translation is off, or the stack
  heuristic answers false, \<^verbatim>\<open>ApplyFramePatches\<close> returns false and issues no call at all
  to the emulated machine, so no write.
\<close>

theorem C2_retry_issues_no_write:
  assumes "\<not> MSR_DR m \<or> \<not> MSR_IR m \<or> IsStackSane m = Inr False"
  shows "ApplyFramePatches cfg m eng issued = Inr (False, issued)"
  using assms by (auto simp: ApplyFramePatches_def)

theorem C2_retry_issues_no_write_witness:
  "ApplyFramePatches config_music_off (machine_sane\<lparr>MSR_DR := False\<rparr>) engine_music [] = Inr (False, [])
   \<and> IsStackSane (machine_sane\<lparr>GPR1 := 0\<rparr>) = Inr False
   \<and> ApplyFramePatches config_music_off (machine_sane\<lparr>GPR1 := 0\<rparr>) engine_music [] = Inr (False, [])"
  using C2_retry_issues_no_write [of "machine_sane\<lparr>MSR_DR := False\<rparr>" config_music_off engine_music "[]"]
    C2_retry_issues_no_write [of "machine_sane\<lparr>GPR1 := 0\<rparr>" config_music_off engine_music "[]"]
  by (simp add: machine_bad_sp)

text \<open>
  C4: with both translation bits set, \<^verbatim>\<open>IsStackSane\<close> is false when the stack pointer is
  not a RAM address; otherwise, with \<open>next_SP\<close> the word read at the stack pointer, it is
  false when \<open>next_SP \<le> SP\<close> or \<open>next_SP\<close> or \<open>next_SP + 4\<close> is not a RAM address;
  otherwise, with \<open>retaddr\<close> the word read at \<open>next_SP + 4\<close>, it is true exactly when
  \<open>retaddr\<close> is an instruction RAM address and the word stored there is not zero.
\<close>

theorem C4_IsStackSane_steps:
  assumes "MSR_DR m" and "MSR_IR m"
  shows "(\<not> HostIsRAMAddress m (GPR1 m) \<longrightarrow> IsStackSane m = Inr False)
   \<and> (HostIsRAMAddress m (GPR1 m) \<and>
       (HostRead_U32 m (GPR1 m) \<le> GPR1 m
        \<or> \<not> HostIsRAMAddress m (HostRead_U32 m (GPR1 m))
        \<or> \<not> HostIsRAMAddress m (HostRead_U32 m (GPR1 m) + 4))
      \<longrightarrow> IsStackSane m = Inr False)
   \<and> (HostIsRAMAddress m (GPR1 m) \<and> GPR1 m < HostRead_U32 m (GPR1 m)
       \<and> HostIsRAMAddress m (HostRead_U32 m (GPR1 m))
       \<and> HostIsRAMAddress m (HostRead_U32 m (GPR1 m) + 4)
      \<longrightarrow> IsStackSane m =
            Inr (HostIsInstructionRAMAddress m (HostRead_U32 m (HostRead_U32 m (GPR1 m) + 4))
                 \<and> HostRead_U32 m (HostRead_U32 m (HostRead_U32 m (GPR1 m) + 4)) \<noteq> 0))"
  using assms by (auto simp: IsStackSane_def Let_def)

theorem C4_IsStackSane_steps_witness:
  "MSR_DR machine_sane \<and> MSR_IR machine_sane \<and> IsStackSane machine_sane = Inr True
   \<and> IsStackSane (machine_sane\<lparr>GPR1 := 0\<rparr>) = Inr False"
  using C4_IsStackSane_steps [of machine_sane] C4_IsStackSane_steps [of "machine_sane\<lparr>GPR1 := 0\<rparr>"]
  by (simp add: machine_sane_def)

lemma ucast_8_mod: "(ucast (v :: u32) :: u8) = word_of_nat (unat v mod 2 ^ 8)"
proof (rule unsigned_word_eqI [where ?'a = nat])
  have "unat (ucast v :: u8) = take_bit 8 (unat v)"
    using unsigned_ucast_eq [where ?'c = 8 and ?'a = nat, of v] by simp
  moreover have "unat (word_of_nat (unat v mod 2 ^ 8) :: u8) = unat v mod 2 ^ 8"
    by (simp add: unat_of_nat)
  ultimately show "unat (ucast v :: u8) = unat (word_of_nat (unat v mod 2 ^ 8) :: u8)"
    by (simp add: take_bit_eq_mod)
qed

lemma ucast_16_mod: "(ucast (v :: u32) :: u16) = word_of_nat (unat v mod 2 ^ 16)"
proof (rule unsigned_word_eqI [where ?'a = nat])
  have "unat (ucast v :: u16) = take_bit 16 (unat v)"
    using unsigned_ucast_eq [where ?'c = 16 and ?'a = nat, of v] by simp
  moreover have "unat (word_of_nat (unat v mod 2 ^ 16) :: u16) = unat v mod 2 ^ 16"
    by (simp add: unat_of_nat)
  ultimately show "unat (ucast v :: u16) = unat (word_of_nat (unat v mod 2 ^ 16) :: u16)"
    by (simp add: take_bit_eq_mod)
qed

lemma ApplyEntry_eq: "ApplyEntry e issued = issued @ entry_writes e"
  by (cases "type e") (simp_all add: ApplyEntry_def entry_writes_def ucast_8_mod ucast_16_mod)

lemma ApplyEntries_eq: "ApplyEntries es issued = issued @ concat (map entry_writes es)"
  by (induction es arbitrary: issued) (simp_all add: ApplyEntry_eq)

lemma ApplyPatches_eq:
  assumes "\<forall>p \<in> set patches. active p \<or> music_override cfg p"
  shows "ApplyPatches cfg patches issued = Inr (issued @ applied_writes cfg patches)"
  using assms
proof (induction patches arbitrary: issued)
  case Nil
  then show ?case by (simp add: applied_writes_def)
next
  case (Cons p ps)
  have step: "applied_writes cfg (p # ps) = patch_writes p @ applied_writes cfg ps"
    using Cons.prems by (simp add: applied_writes_def)
  have rest: "ApplyPatches cfg ps tr = Inr (tr @ applied_writes cfg ps)" for tr
    using Cons.IH Cons.prems by simp
  show ?case
  proof (cases "active p")
    case True
    then show ?thesis
      by (simp add: rest step ApplyEntries_eq patch_writes_def)
  next
    case False
    then have "music_override cfg p"
      using Cons.prems by simp
    then have "IsEnabledMusicCode cfg p = Some True"
      by (simp add: IsEnabledMusicCode_def music_override_def)
    with False show ?thesis
      by (simp add: rest step ApplyEntries_eq patch_writes_def)
  qed
qed

lemma applied_writes_all_active:
  "\<forall>p \<in> set patches. active p \<Longrightarrow> applied_writes cfg patches = active_writes patches"
proof -
  assume a: "\<forall>p \<in> set patches. active p"
  then have "filter (\<lambda>p. active p \<or> music_override cfg p) patches = filter active patches"
    by (intro filter_cong) auto
  then show ?thesis
    by (simp add: applied_writes_def active_writes_def)
qed

text \<open>
  C3 (as amended): with both translation bits set and a sane stack, and a collection where
  every inactive patch meets the built-in override (so that the guard has a value for each
  patch), \<^verbatim>\<open>ApplyFramePatches\<close> returns true and issues exactly the writes declared by the
  entries of every patch that is active or meets the override, in collection order and,
  within a patch, in entry order, each of the declared width with the value cut to that
  width, followed by the two calls into the external interpreters. When every patch is
  active these are the writes of the active patches.
\<close>

theorem C3_writes_of_applied_patches:
  assumes "MSR_DR m" and "MSR_IR m" and "IsStackSane m = Inr True"
    and "\<forall>p \<in> set (onFrame eng). active p \<or> music_override cfg p"
  shows "ApplyFramePatches cfg m eng issued =
           Inr (True, issued @ applied_writes cfg (onFrame eng)
                        @ [Gecko_RunCodeHandler, ActionReplay_RunAllActive])
         \<and> ((\<forall>p \<in> set (onFrame eng). active p) \<longrightarrow>
              applied_writes cfg (onFrame eng) = active_writes (onFrame eng))"
proof
  show "ApplyFramePatches cfg m eng issued =
           Inr (True, issued @ applied_writes cfg (onFrame eng)
                        @ [Gecko_RunCodeHandler, ActionReplay_RunAllActive])"
    using assms(1-3) ApplyPatches_eq [OF assms(4), of issued]
    by (simp add: ApplyFramePatches_def)
next
  show "(\<forall>p \<in> set (onFrame eng). active p) \<longrightarrow>
              applied_writes cfg (onFrame eng) = active_writes (onFrame eng)"
    using applied_writes_all_active by blast
qed

lemma engine_music_applied:
  "applied_writes config_music_off (onFrame engine_music) =
     [HostWrite_U32 0 0x80001234, HostWrite_U8 0xFF 0x90E60F34]"
  by (simp add: applied_writes_def patch_writes_def entry_writes_def engine_music_def
      music_override_def config_music_off_def)

theorem C3_writes_of_applied_patches_witness:
  "MSR_DR machine_sane \<and> MSR_IR machine_sane \<and> IsStackSane machine_sane = Inr True
   \<and> list_all (\<lambda>p. active p \<or> music_override config_music_off p) (onFrame engine_music)
   \<and> ApplyFramePatches config_music_off machine_sane engine_music [] =
       Inr (True, [HostWrite_U32 0 0x80001234, HostWrite_U8 0xFF 0x90E60F34,
                   Gecko_RunCodeHandler, ActionReplay_RunAllActive])"
proof -
  have h: "\<forall>p \<in> set (onFrame engine_music). active p \<or> music_override config_music_off p"
    by (simp add: engine_music_def music_override_def config_music_off_def)
  have m: "MSR_DR machine_sane" "MSR_IR machine_sane"
    by (simp_all add: machine_sane_def)
  show ?thesis
    using C3_writes_of_applied_patches [OF m machine_sane_IsStackSane h, of "[]"] h m
    by (simp add: engine_music_applied machine_sane_IsStackSane list_all_iff)
qed

text \<open>
  C3 as stated fails: with the music-off flag set, the inactive patch named
  \<^verbatim>\<open>[P+] Music Off\<close> is written as well, while the writes of the active patches are the
  single 32-bit write.
\<close>

theorem C3_writes_of_applied_patches_counterexample:
  "MSR_DR machine_sane \<and> MSR_IR machine_sane \<and> IsStackSane machine_sane = Inr True
   \<and> ApplyFramePatches config_music_off machine_sane engine_music [] =
       Inr (True, [HostWrite_U32 0 0x80001234, HostWrite_U8 0xFF 0x90E60F34,
                   Gecko_RunCodeHandler, ActionReplay_RunAllActive])
   \<and> active_writes (onFrame engine_music) = [HostWrite_U32 0 0x80001234]"
  by (simp add: ApplyFramePatches_def IsStackSane_def machine_sane_def engine_music_def
      config_music_off_def IsEnabledMusicCode_def ApplyEntry_def active_writes_def
      patch_writes_def entry_writes_def)

end
